theory Spec2Isabelle
  imports Complex_Main "HOL-Library.Char_ord" "HOL-Library.List_Lexorder"
    "HOL-Library.Product_Lexorder"
begin

section \<open>Transaction rows\<close>

text \<open>
  A row of the raw export \<^verbatim>\<open>OnlineRetail.csv\<close>: one field per column that the scripts
  read. \<^verbatim>\<open>CustomerID\<close> is the only nullable column (pandas reads a blank cell as NaN, here
  \<open>None\<close>). \<^verbatim>\<open>InvoiceDate\<close> is the instant the cell denotes, in nanoseconds since the epoch
  (the unit of pandas' \<^verbatim>\<open>datetime64[ns]\<close>); the parsing of the text is not part of the model.
  \<^verbatim>\<open>Quantity\<close> is an integer and \<^verbatim>\<open>UnitPrice\<close> a decimal number, taken with exact
  arithmetic.
\<close>

type_synonym timestamp = int

record txn =
  InvoiceNo :: string
  StockCode :: string
  Description :: string
  Quantity :: int
  InvoiceDate :: timestamp
  UnitPrice :: rat
  CustomerID :: "int option"
  Country :: string

text \<open>A row of \<^verbatim>\<open>clean_retail_data.csv\<close>: the same columns and \<^verbatim>\<open>SalesAmount\<close>.\<close>

record sales_txn = txn +
  SalesAmount :: rat

section \<open>01\_data\_cleaning.py\<close>

text \<open>\<^verbatim>\<open>str.startswith\<close>: the prefix test of Python strings.\<close>

fun startswith :: "string \<Rightarrow> string \<Rightarrow> bool" where
  "startswith s [] = True"
| "startswith [] (p # ps) = False"
| "startswith (c # cs) (p # ps) = (c = p \<and> startswith cs ps)"

text \<open>Step 3: \<^verbatim>\<open>df = df.dropna(subset=["CustomerID"])\<close>.\<close>

definition dropna_CustomerID :: "('a txn_scheme) list \<Rightarrow> ('a txn_scheme) list" where
  "dropna_CustomerID df = filter (\<lambda>r. CustomerID r \<noteq> None) df"

text \<open>Step 4: \<^verbatim>\<open>df = df[~df["InvoiceNo"].astype(str).str.startswith("C")]\<close>.\<close>

definition drop_cancelled :: "('a txn_scheme) list \<Rightarrow> ('a txn_scheme) list" where
  "drop_cancelled df = filter (\<lambda>r. \<not> startswith (InvoiceNo r) ''C'') df"

text \<open>Step 5: \<^verbatim>\<open>df = df[df["Quantity"] > 0]\<close>.\<close>

definition positive_Quantity :: "('a txn_scheme) list \<Rightarrow> ('a txn_scheme) list" where
  "positive_Quantity df = filter (\<lambda>r. 0 < Quantity r) df"

text \<open>Step 6: \<^verbatim>\<open>df = df[df["UnitPrice"] > 0]\<close>.\<close>

definition positive_UnitPrice :: "('a txn_scheme) list \<Rightarrow> ('a txn_scheme) list" where
  "positive_UnitPrice df = filter (\<lambda>r. 0 < UnitPrice r) df"

text \<open>
  Step 8: \<^verbatim>\<open>df["SalesAmount"] = df["Quantity"] * df["UnitPrice"]\<close>. The assignment adds the
  column to a frame that lacks it and overwrites it in a frame that has it; the eight other
  columns are kept.
\<close>

definition add_SalesAmount :: "'a txn_scheme \<Rightarrow> sales_txn" where
  "add_SalesAmount r =
     \<lparr>InvoiceNo = InvoiceNo r, StockCode = StockCode r, Description = Description r,
      Quantity = Quantity r, InvoiceDate = InvoiceDate r, UnitPrice = UnitPrice r,
      CustomerID = CustomerID r, Country = Country r,
      SalesAmount = of_int (Quantity r) * UnitPrice r\<rparr>"

text \<open>The script, steps 3 to 8 in the order it runs them.\<close>

definition cleaner :: "('a txn_scheme) list \<Rightarrow> sales_txn list" where
  "cleaner df =
     map add_SalesAmount
       (positive_UnitPrice (positive_Quantity (drop_cancelled (dropna_CustomerID df))))"

section \<open>Helpers shared by the later stages\<close>

text \<open>
  \<^verbatim>\<open>drop_duplicates()\<close>, \<^verbatim>\<open>unique()\<close>: the first occurrence of every value, in the
  order of first occurrence. \<^verbatim>\<open>nunique\<close> is the length of that list.
\<close>

fun drop_duplicates :: "'a list \<Rightarrow> 'a list" where
  "drop_duplicates [] = []"
| "drop_duplicates (x # xs) = x # filter (\<lambda>y. y \<noteq> x) (drop_duplicates xs)"

definition nunique :: "'a list \<Rightarrow> nat" where
  "nunique xs = length (drop_duplicates xs)"

text \<open>\<^verbatim>\<open>Series.max()\<close>: the largest value, and NaT (\<open>None\<close>) on a column without rows.\<close>

fun Series_max :: "int list \<Rightarrow> int option" where
  "Series_max [] = None"
| "Series_max (x # xs) = Some (fold max xs x)"

section \<open>02\_rfm\_analysis.py\<close>

text \<open>\<^verbatim>\<open>pd.Timedelta(days=1)\<close> in nanoseconds.\<close>

definition one_day :: int where
  "one_day = 86400000000000"

text \<open>
  Line 8: \<^verbatim>\<open>snapshot_date = df["InvoiceDate"].max() + pd.Timedelta(days=1)\<close>; NaT plus a
  Timedelta is NaT.
\<close>

definition snapshot_date :: "('a txn_scheme) list \<Rightarrow> timestamp option" where
  "snapshot_date df = map_option (\<lambda>m. m + one_day) (Series_max (map InvoiceDate df))"

text \<open>The per-customer table of lines 11 to 17.\<close>

record rfm_row =
  customer :: int
  Recency :: int
  Frequency :: nat
  Monetary :: rat

text \<open>
  \<^verbatim>\<open>df.groupby("CustomerID")\<close>: one group per distinct non-null key, keys in ascending order;
  a group holds the rows of its key.
\<close>

definition group_keys :: "('a txn_scheme) list \<Rightarrow> int list" where
  "group_keys df = sort (drop_duplicates (List.map_filter CustomerID df))"

definition group_rows :: "int \<Rightarrow> ('a txn_scheme) list \<Rightarrow> ('a txn_scheme) list" where
  "group_rows c df = filter (\<lambda>r. CustomerID r = Some c) df"

text \<open>
  The three aggregations of a group: \<^verbatim>\<open>(snapshot_date - x.max()).days\<close> (whole days, rounded
  down), \<^verbatim>\<open>nunique\<close> of InvoiceNo and \<^verbatim>\<open>sum\<close> of SalesAmount. A group without rows has no
  latest date and gives no record.
\<close>

definition aggregate :: "timestamp \<Rightarrow> sales_txn list \<Rightarrow> int \<Rightarrow> rfm_row option" where
  "aggregate snapshot df c =
     (let g = group_rows c df in
      case Series_max (map InvoiceDate g) of
        None \<Rightarrow> None
      | Some latest \<Rightarrow>
          Some \<lparr>customer = c,
                Recency = (snapshot - latest) div one_day,
                Frequency = nunique (map InvoiceNo g),
                Monetary = sum_list (map SalesAmount g)\<rparr>)"

text \<open>
  Lines 8 to 17. On a frame without rows the snapshot is NaT, there is no group, and the
  table has no rows.
\<close>

definition compute_rfm :: "sales_txn list \<Rightarrow> rfm_row list" where
  "compute_rfm df =
     (case snapshot_date df of
        None \<Rightarrow> []
      | Some snapshot \<Rightarrow> List.map_filter (aggregate snapshot df) (group_keys df))"

subsection \<open>Quantile scoring\<close>

text \<open>
  \<^verbatim>\<open>Series.quantile(q)\<close> with pandas' default linear interpolation: on the sorted values
  \<open>s\<close> of length \<open>n\<close>, the value at the position \<open>(n - 1) * q\<close>, interpolated between its two
  neighbours. NaN on a column without values. The edges are exact rationals here; pandas
  computes them in binary floating point.
\<close>

definition quantile :: "rat list \<Rightarrow> rat \<Rightarrow> rat option" where
  "quantile xs q =
     (if xs = [] then None
      else
        let s = sort xs;
            h = of_nat (length s - 1) * q;
            lo = nat \<lfloor>h\<rfloor>;
            g = h - of_nat lo
        in Some (if lo + 1 < length s then s ! lo + g * (s ! (lo + 1) - s ! lo) else s ! lo))"

text \<open>The bin edges of \<^verbatim>\<open>qcut(x, q)\<close>: the quantiles \<open>0/q, 1/q, ..., q/q\<close>.\<close>

definition quantile_edges :: "rat list \<Rightarrow> nat \<Rightarrow> rat list" where
  "quantile_edges xs q = List.map_filter (\<lambda>k. quantile xs (of_nat k / of_nat q)) [0..<Suc q]"

text \<open>\<^verbatim>\<open>bins.searchsorted(x, side="left")\<close> on ascending bins: the first index whose edge is
  not below \<open>x\<close>.\<close>

fun searchsorted_left :: "rat list \<Rightarrow> rat \<Rightarrow> nat" where
  "searchsorted_left [] x = 0"
| "searchsorted_left (b # bs) x = (if b < x then Suc (searchsorted_left bs x) else 0)"

text \<open>
  The bucket of one value, as pandas computes it for \<^verbatim>\<open>labels=False\<close> with
  \<^verbatim>\<open>include_lowest=True\<close> (which \<^verbatim>\<open>qcut\<close> sets): the index found by \<^verbatim>\<open>searchsorted\<close>, set to 1
  for a value equal to the lowest edge; an index of 0 or of the number of edges is outside
  every bin and gives NaN; otherwise the bucket is the index minus 1.
\<close>

definition bins_to_cuts :: "rat list \<Rightarrow> rat \<Rightarrow> nat option" where
  "bins_to_cuts bins x =
     (let ids = (case bins of
                   [] \<Rightarrow> searchsorted_left bins x
                 | b0 # _ \<Rightarrow> if x = b0 then 1 else searchsorted_left bins x)
      in if ids = length bins \<or> ids = 0 then None else Some (ids - 1))"

text \<open>
  \<^verbatim>\<open>pd.qcut(x, q, labels=False, duplicates='drop')\<close>: repeated edges are dropped (the first
  of each kept), then every value gets its bucket.
\<close>

definition qcut :: "rat list \<Rightarrow> nat \<Rightarrow> nat option list" where
  "qcut xs q = map (bins_to_cuts (drop_duplicates (quantile_edges xs q))) xs"

subsection \<open>Scores, composite string and segment\<close>

text \<open>\<^verbatim>\<open>str\<close> of a Python integer.\<close>

fun str_nat :: "nat \<Rightarrow> string" where
  "str_nat n = (if n < 10 then [''0123456789'' ! n]
                else str_nat (n div 10) @ [''0123456789'' ! (n mod 10)])"

definition str_int :: "int \<Rightarrow> string" where
  "str_int i = (if i < 0 then CHR ''-'' # str_nat (nat (- i)) else str_nat (nat i))"

text \<open>
  \<^verbatim>\<open>Series.astype(str)\<close> on a score column. A column without NaN is an integer column and
  prints as integers; a column that holds a NaN is a float column: NaN prints as "nan" and a
  whole number with a trailing ".0".
\<close>

definition astype_str :: "int option list \<Rightarrow> string list" where
  "astype_str col =
     (if None \<in> set col
      then map (\<lambda>v. case v of None \<Rightarrow> ''nan'' | Some n \<Rightarrow> str_int n @ ''.0'') col
      else map (\<lambda>v. case v of None \<Rightarrow> ''nan'' | Some n \<Rightarrow> str_int n) col)"

text \<open>
  Python's \<^verbatim>\<open><\<close> on strings: the first differing character decides, by code point; a
  proper prefix is smaller. \<^verbatim>\<open>a >= b\<close> is its negation.
\<close>

fun py_str_lt :: "string \<Rightarrow> string \<Rightarrow> bool" where
  "py_str_lt [] [] = False"
| "py_str_lt [] (d # ds) = True"
| "py_str_lt (c # cs) [] = False"
| "py_str_lt (c # cs) (d # ds) =
     (if (of_char c :: nat) < of_char d then True
      else if (of_char d :: nat) < of_char c then False
      else py_str_lt cs ds)"

definition py_str_ge :: "string \<Rightarrow> string \<Rightarrow> bool" where
  "py_str_ge a b = (\<not> py_str_lt a b)"

text \<open>Lines 36 to 44, \<^verbatim>\<open>segment(row)\<close>; it reads \<^verbatim>\<open>row["RFM_Score"]\<close> only.\<close>

definition segment :: "string \<Rightarrow> string" where
  "segment score =
     (if py_str_ge score ''444'' then ''Champions''
      else if py_str_ge score ''333'' then ''Loyal Customers''
      else if py_str_ge score ''222'' then ''Potential Loyalists''
      else ''Churn Risk'')"

text \<open>A row of \<^verbatim>\<open>customer_rfm_segments.csv\<close>. A score is \<open>None\<close> where pandas holds NaN.\<close>

record segment_row = rfm_row +
  R_Score :: "int option"
  F_Score :: "int option"
  M_Score :: "int option"
  RFM_Score :: string
  Segment :: string

text \<open>
  Lines 20 to 27, column by column: the bucket of every customer, then \<^verbatim>\<open>5 - R_Score\<close>,
  \<^verbatim>\<open>F_Score + 1\<close> and \<^verbatim>\<open>M_Score + 1\<close>; arithmetic on NaN gives NaN.
\<close>

definition R_bucket :: "rfm_row list \<Rightarrow> nat option list" where
  "R_bucket rfm = qcut (map (\<lambda>a. of_int (Recency a)) rfm) 5"

definition F_bucket :: "rfm_row list \<Rightarrow> nat option list" where
  "F_bucket rfm = qcut (map (\<lambda>a. of_nat (Frequency a)) rfm) 5"

definition M_bucket :: "rfm_row list \<Rightarrow> nat option list" where
  "M_bucket rfm = qcut (map Monetary rfm) 5"

definition R_Scores :: "rfm_row list \<Rightarrow> int option list" where
  "R_Scores rfm = map (map_option (\<lambda>b. 5 - int b)) (R_bucket rfm)"

definition F_Scores :: "rfm_row list \<Rightarrow> int option list" where
  "F_Scores rfm = map (map_option (\<lambda>b. int b + 1)) (F_bucket rfm)"

definition M_Scores :: "rfm_row list \<Rightarrow> int option list" where
  "M_Scores rfm = map (map_option (\<lambda>b. int b + 1)) (M_bucket rfm)"

text \<open>Lines 29 to 33: the three columns as strings, concatenated row by row.\<close>

definition RFM_Scores :: "rfm_row list \<Rightarrow> string list" where
  "RFM_Scores rfm =
     map (\<lambda>i. astype_str (R_Scores rfm) ! i @ astype_str (F_Scores rfm) ! i @
               astype_str (M_Scores rfm) ! i)
       [0..<length rfm]"

text \<open>Lines 20 to 46 on the per-customer table: every row with its new columns.\<close>

definition score_rfm :: "rfm_row list \<Rightarrow> segment_row list" where
  "score_rfm rfm =
     map (\<lambda>i.
           \<lparr>customer = customer (rfm ! i), Recency = Recency (rfm ! i),
            Frequency = Frequency (rfm ! i), Monetary = Monetary (rfm ! i),
            R_Score = R_Scores rfm ! i, F_Score = F_Scores rfm ! i,
            M_Score = M_Scores rfm ! i, RFM_Score = RFM_Scores rfm ! i,
            Segment = segment (RFM_Scores rfm ! i)\<rparr>)
       [0..<length rfm]"

text \<open>
  The segmenter: the script from the cleaned rows to its output table. Line 46 is
  \<^verbatim>\<open>rfm["Segment"] = rfm.apply(segment, axis=1)\<close>. On a table with rows, \<^verbatim>\<open>apply\<close> calls
  \<^verbatim>\<open>segment\<close> on every row and gives the column of labels. On a table without rows
  \<^verbatim>\<open>DataFrame.apply\<close> has no row to call \<^verbatim>\<open>segment\<close> on and returns a copy of the frame
  instead of a column; the assignment of that frame, which has several columns, to the
  single column \<^verbatim>\<open>Segment\<close> raises \<^verbatim>\<open>ValueError\<close>, and the script ends before line 49
  writes the output.
\<close>

datatype py_error = ValueError

definition compute_segments :: "sales_txn list \<Rightarrow> py_error + segment_row list" where
  "compute_segments df =
     (let rfm = compute_rfm df in
      if rfm = [] then Inl ValueError else Inr (score_rfm rfm))"

section \<open>03\_market\_basket.py\<close>







section \<open>04\_load\_to\_postgres.py\<close>

record fact_row =
  invoice_no :: string
  customer_id :: "int option"
  product_id :: string
  quantity :: int
  sales_amount :: rat
  invoice_date :: timestamp

text \<open>
  The three destination tables of the store; \<open>None\<close> is a table that does not exist.
  \<^verbatim>\<open>to_sql(name, engine, if_exists="replace")\<close> drops the table and writes the frame, whatever
  the table held.
\<close>

record warehouse =
  dim_customer :: "(int option \<times> string) list option"
  dim_product :: "(string \<times> string) list option"
  fact_sales :: "fact_row list option"

text \<open>Lines 16 and 19: the two dimension frames.\<close>

definition df_customers :: "sales_txn list \<Rightarrow> (int option \<times> string) list" where
  "df_customers df = drop_duplicates (map (\<lambda>r. (CustomerID r, Country r)) df)"

definition df_products :: "sales_txn list \<Rightarrow> (string \<times> string) list" where
  "df_products df = drop_duplicates (map (\<lambda>r. (StockCode r, Description r)) df)"

text \<open>Lines 30 to 46: the fact frame, a projection of every row.\<close>

definition df_facts :: "sales_txn list \<Rightarrow> fact_row list" where
  "df_facts df =
     map (\<lambda>r. \<lparr>invoice_no = InvoiceNo r, customer_id = CustomerID r, product_id = StockCode r,
                quantity = Quantity r, sales_amount = SalesAmount r,
                invoice_date = InvoiceDate r\<rparr>) df"

text \<open>The script: the three writes, in its order, on the store it finds.\<close>

definition load_to_postgres :: "warehouse \<Rightarrow> sales_txn list \<Rightarrow> warehouse" where
  "load_to_postgres w df =
     ((w\<lparr>dim_customer := Some (df_customers df)\<rparr>)
        \<lparr>dim_product := Some (df_products df)\<rparr>)
        \<lparr>fact_sales := Some (df_facts df)\<rparr>"

section \<open>Example inputs\<close>



text \<open>A cleaned table with the rows of a single customer.\<close>

definition one_customer :: "sales_txn list" where
  "one_customer =
     [\<lparr>InvoiceNo = ''536365'', StockCode = ''71053'', Description = ''LANTERN'',
       Quantity = 6, InvoiceDate = 0, UnitPrice = 5 / 2, CustomerID = Some 17850,
       Country = ''United Kingdom'', SalesAmount = 15\<rparr>]"

text \<open>
  A cleaned table with two customers, one invoice each: customer 17850 bought on day 0 (two
  lines, an hour apart), customer 12583 nine days later.
\<close>

definition two_customers :: "sales_txn list" where
  "two_customers =
     [\<lparr>InvoiceNo = ''536365'', StockCode = ''71053'', Description = ''LANTERN'',
       Quantity = 6, InvoiceDate = 0, UnitPrice = 5 / 2, CustomerID = Some 17850,
       Country = ''United Kingdom'', SalesAmount = 15\<rparr>,
      \<lparr>InvoiceNo = ''536370'', StockCode = ''22633'', Description = ''HAND WARMER'',
       Quantity = 2, InvoiceDate = 9 * 86400000000000, UnitPrice = 1, CustomerID = Some 12583,
       Country = ''France'', SalesAmount = 2\<rparr>,
      \<lparr>InvoiceNo = ''536365'', StockCode = ''22633'', Description = ''HAND WARMER'',
       Quantity = 4, InvoiceDate = 3600000000000, UnitPrice = 1, CustomerID = Some 17850,
       Country = ''United Kingdom'', SalesAmount = 4\<rparr>]"

text \<open>
  A cleaned table with three customers: 101 bought once on day 0, 102 twice (last on day 20),
  103 three times (last on day 40).
\<close>

definition three_customers :: "sales_txn list" where
  "three_customers =
     [\<lparr>InvoiceNo = ''1001'', StockCode = ''71053'', Description = ''LANTERN'',
       Quantity = 2, InvoiceDate = 0, UnitPrice = 5, CustomerID = Some 101,
       Country = ''France'', SalesAmount = 10\<rparr>,
      \<lparr>InvoiceNo = ''1002'', StockCode = ''71053'', Description = ''LANTERN'',
       Quantity = 4, InvoiceDate = 5 * 86400000000000, UnitPrice = 5, CustomerID = Some 102,
       Country = ''Spain'', SalesAmount = 20\<rparr>,
      \<lparr>InvoiceNo = ''1003'', StockCode = ''71053'', Description = ''LANTERN'',
       Quantity = 20, InvoiceDate = 10 * 86400000000000, UnitPrice = 5, CustomerID = Some 103,
       Country = ''Norway'', SalesAmount = 100\<rparr>,
      \<lparr>InvoiceNo = ''1004'', StockCode = ''22633'', Description = ''HAND WARMER'',
       Quantity = 10, InvoiceDate = 20 * 86400000000000, UnitPrice = 2, CustomerID = Some 102,
       Country = ''Spain'', SalesAmount = 20\<rparr>,
      \<lparr>InvoiceNo = ''1005'', StockCode = ''22633'', Description = ''HAND WARMER'',
       Quantity = 50, InvoiceDate = 30 * 86400000000000, UnitPrice = 2, CustomerID = Some 103,
       Country = ''Norway'', SalesAmount = 100\<rparr>,
      \<lparr>InvoiceNo = ''1006'', StockCode = ''22633'', Description = ''HAND WARMER'',
       Quantity = 50, InvoiceDate = 40 * 86400000000000, UnitPrice = 2, CustomerID = Some 103,
       Country = ''Norway'', SalesAmount = 100\<rparr>]"

section \<open>The contracts, stated on sets\<close>

text \<open>The retention condition of the cleaner's contract.\<close>

definition retained :: "'a txn_scheme \<Rightarrow> bool" where
  "retained r \<longleftrightarrow>
     CustomerID r \<noteq> None \<and> \<not> startswith (InvoiceNo r) ''C'' \<and> 0 < Quantity r \<and> 0 < UnitPrice r"


text \<open>A column takes at least two values.\<close>

definition varies :: "'a list \<Rightarrow> bool" where
  "varies xs \<longleftrightarrow> 1 < nunique xs"

section \<open>Properties of the cleaner\<close>

lemma add_SalesAmount_sel:
  "InvoiceNo (add_SalesAmount r) = InvoiceNo r"
  "StockCode (add_SalesAmount r) = StockCode r"
  "Description (add_SalesAmount r) = Description r"
  "Quantity (add_SalesAmount r) = Quantity r"
  "InvoiceDate (add_SalesAmount r) = InvoiceDate r"
  "UnitPrice (add_SalesAmount r) = UnitPrice r"
  "CustomerID (add_SalesAmount r) = CustomerID r"
  "Country (add_SalesAmount r) = Country r"
  "SalesAmount (add_SalesAmount r) = of_int (Quantity r) * UnitPrice r"
  by (simp_all add: add_SalesAmount_def)

lemma retained_add_SalesAmount: "retained (add_SalesAmount r) = retained r"
  by (simp add: retained_def add_SalesAmount_sel)

lemma add_SalesAmount_idem: "add_SalesAmount (add_SalesAmount r) = add_SalesAmount r"
  by (simp add: add_SalesAmount_def)

lemma cleaner_filter: "cleaner df = map add_SalesAmount (filter retained df)"
proof -
  have "positive_UnitPrice (positive_Quantity (drop_cancelled (dropna_CustomerID df))) =
          filter retained df"
    unfolding positive_UnitPrice_def positive_Quantity_def drop_cancelled_def
      dropna_CustomerID_def
    by (induction df) (simp_all add: retained_def)
  then show ?thesis
    by (simp add: cleaner_def)
qed

text \<open>
  C4. A raw row is kept exactly when its customer identifier is present, its invoice
  identifier does not start with "C", its quantity is positive and its unit price is
  positive: the output is the input restricted to those rows, in the input's order and with
  its repetitions, each row extended by its sales amount. Nothing else drops a row.
\<close>

theorem cleaner_retains_iff:
  "cleaner df =
     map add_SalesAmount
       (filter (\<lambda>r. CustomerID r \<noteq> None \<and> \<not> startswith (InvoiceNo r) ''C'' \<and>
                     0 < Quantity r \<and> 0 < UnitPrice r) df)"
  unfolding cleaner_filter
  by (rule arg_cong [where f = "map add_SalesAmount"], rule filter_cong)
    (simp_all add: retained_def)




text \<open>
  C6. Cleaning is idempotent: the cleaner applied to its own output returns that output,
  row for row.
\<close>

theorem cleaner_idempotent: "cleaner (cleaner df) = cleaner df"
proof -
  have "filter retained (map add_SalesAmount (filter retained df)) =
        map add_SalesAmount (filter retained df)"
    by (induction df) (simp_all add: retained_add_SalesAmount)
  then show ?thesis
    by (simp add: cleaner_filter add_SalesAmount_idem)
qed

section \<open>Properties of the shared helpers\<close>

lemma set_drop_duplicates: "set (drop_duplicates xs) = set xs"
  by (induction xs) auto

lemma distinct_drop_duplicates: "distinct (drop_duplicates xs)"
  by (induction xs) (simp_all add: set_drop_duplicates)

lemma length_drop_duplicates: "length (drop_duplicates xs) = card (set xs)"
  using distinct_card [OF distinct_drop_duplicates, of xs]
  by (simp add: set_drop_duplicates)

lemma nunique_card: "nunique xs = card (set xs)"
  by (simp add: nunique_def length_drop_duplicates)


lemma set_map_filter_Some: "set (List.map_filter f xs) = {y. \<exists>x \<in> set xs. f x = Some y}"
  by (induction xs) (auto split: option.splits)

lemma map_filter_all_Some:
  "(\<And>x. x \<in> set xs \<Longrightarrow> f x = Some (g x)) \<Longrightarrow> List.map_filter f xs = map g xs"
  by (induction xs) simp_all

section \<open>Properties of the warehouse loader\<close>

text \<open>
  C9. After the load, whatever the store held before, the table \<^verbatim>\<open>dim_customer\<close> exists and
  has as many rows as the cleaned data has distinct (CustomerID, Country) pairs, and the table
  \<^verbatim>\<open>fact_sales\<close> exists and has as many rows as the cleaned data.
\<close>

theorem warehouse_row_counts:
  "map_option length (dim_customer (load_to_postgres w df)) =
     Some (card ((\<lambda>r. (CustomerID r, Country r)) ` set df)) \<and>
   map_option length (fact_sales (load_to_postgres w df)) = Some (length df)"
  by (simp add: load_to_postgres_def df_customers_def df_facts_def length_drop_duplicates)

section \<open>Properties of the basket matrix\<close>













section \<open>Properties of the aggregation\<close>












section \<open>Properties of the segmenter\<close>

text \<open>Python's comparison of strings is the lexicographic order of the character codes.\<close>

lemma py_str_lt_less: "py_str_lt a b \<longleftrightarrow> a < b"
  by (induction a b rule: py_str_lt.induct) (auto simp: less_char_def)

lemma py_str_ge_le: "py_str_ge a b \<longleftrightarrow> b \<le> a"
  by (simp add: py_str_ge_def py_str_lt_less not_less)

lemma length_score_rfm: "length (score_rfm rfm) = length rfm"
  by (simp add: score_rfm_def)

lemma Segment_score_rfm: "a \<in> set (score_rfm rfm) \<Longrightarrow> Segment a = segment (RFM_Score a)"
  by (auto simp: score_rfm_def)

lemma compute_segments_Inr:
  "compute_segments df = Inr out \<longleftrightarrow> compute_rfm df \<noteq> [] \<and> out = score_rfm (compute_rfm df)"
  by (auto simp: compute_segments_def Let_def)

text \<open>
  C1. In every record of the segmenter's output the label is determined by the composite
  score string of that record alone, by lexicographic comparison in fixed order: Champions
  from "444" on, else Loyal Customers from "333" on, else Potential Loyalists from "222" on,
  else Churn Risk.
\<close>

theorem segment_rule:
  assumes "compute_segments df = Inr out" and "a \<in> set out"
  shows "Segment a =
     (if ''444'' \<le> RFM_Score a then ''Champions''
      else if ''333'' \<le> RFM_Score a then ''Loyal Customers''
      else if ''222'' \<le> RFM_Score a then ''Potential Loyalists''
      else ''Churn Risk'')"
proof -
  from assms have "a \<in> set (score_rfm (compute_rfm df))"
    by (simp add: compute_segments_Inr)
  then have "Segment a = segment (RFM_Score a)"
    by (rule Segment_score_rfm)
  then show ?thesis
    by (simp add: segment_def py_str_ge_le)
qed

lemma compute_rfm_three_customers:
  "compute_rfm three_customers =
     [\<lparr>customer = 101, Recency = 41, Frequency = 1, Monetary = 10\<rparr>,
      \<lparr>customer = 102, Recency = 21, Frequency = 2, Monetary = 40\<rparr>,
      \<lparr>customer = 103, Recency = 1, Frequency = 3, Monetary = 300\<rparr>]"
  by (simp add: compute_rfm_def snapshot_date_def three_customers_def group_keys_def
      aggregate_def group_rows_def nunique_def one_day_def)

lemma score_rfm_three_customers:
  "score_rfm
     [\<lparr>customer = 101, Recency = 41, Frequency = 1, Monetary = 10\<rparr>,
      \<lparr>customer = 102, Recency = 21, Frequency = 2, Monetary = 40\<rparr>,
      \<lparr>customer = 103, Recency = 1, Frequency = 3, Monetary = 300\<rparr>] =
     [\<lparr>customer = 101, Recency = 41, Frequency = 1, Monetary = 10,
       R_Score = Some 1, F_Score = Some 1, M_Score = Some 1,
       RFM_Score = ''111'', Segment = ''Churn Risk''\<rparr>,
      \<lparr>customer = 102, Recency = 21, Frequency = 2, Monetary = 40,
       R_Score = Some 3, F_Score = Some 3, M_Score = Some 3,
       RFM_Score = ''333'', Segment = ''Loyal Customers''\<rparr>,
      \<lparr>customer = 103, Recency = 1, Frequency = 3, Monetary = 300,
       R_Score = Some 5, F_Score = Some 5, M_Score = Some 5,
       RFM_Score = ''555'', Segment = ''Champions''\<rparr>]"
  by code_simp

lemma compute_segments_three_customers:
  "compute_segments three_customers =
     Inr [\<lparr>customer = 101, Recency = 41, Frequency = 1, Monetary = 10,
           R_Score = Some 1, F_Score = Some 1, M_Score = Some 1,
           RFM_Score = ''111'', Segment = ''Churn Risk''\<rparr>,
          \<lparr>customer = 102, Recency = 21, Frequency = 2, Monetary = 40,
           R_Score = Some 3, F_Score = Some 3, M_Score = Some 3,
           RFM_Score = ''333'', Segment = ''Loyal Customers''\<rparr>,
          \<lparr>customer = 103, Recency = 1, Frequency = 3, Monetary = 300,
           R_Score = Some 5, F_Score = Some 5, M_Score = Some 5,
           RFM_Score = ''555'', Segment = ''Champions''\<rparr>]"
  unfolding compute_segments_def compute_rfm_three_customers Let_def score_rfm_three_customers
  by simp

theorem segment_rule_witness:
  "compute_segments three_customers =
     Inr [\<lparr>customer = 101, Recency = 41, Frequency = 1, Monetary = 10,
           R_Score = Some 1, F_Score = Some 1, M_Score = Some 1,
           RFM_Score = ''111'', Segment = ''Churn Risk''\<rparr>,
          \<lparr>customer = 102, Recency = 21, Frequency = 2, Monetary = 40,
           R_Score = Some 3, F_Score = Some 3, M_Score = Some 3,
           RFM_Score = ''333'', Segment = ''Loyal Customers''\<rparr>,
          \<lparr>customer = 103, Recency = 1, Frequency = 3, Monetary = 300,
           R_Score = Some 5, F_Score = Some 5, M_Score = Some 5,
           RFM_Score = ''555'', Segment = ''Champions''\<rparr>] \<and>
   \<not> ''444'' \<le> ''333'' \<and> ''333'' \<le> ''333''"
  using segment_rule [OF compute_segments_three_customers,
      of "\<lparr>customer = 102, Recency = 21, Frequency = 2, Monetary = 40,
           R_Score = Some 3, F_Score = Some 3, M_Score = Some 3,
           RFM_Score = ''333'', Segment = ''Loyal Customers''\<rparr>"]
  by (simp add: compute_segments_three_customers)








section \<open>How far the scores are digits\<close>

text \<open>
  The bucket of \<^verbatim>\<open>qcut\<close>, where it is defined, is below the number of quantiles; it is
  defined for every customer when the metric takes at least two values among the
  customers, and for no customer when the metric is constant among them.
\<close>

lemma searchsorted_left_le: "searchsorted_left bs x \<le> length bs"
  by (induction bs) simp_all

lemma searchsorted_left_full:
  "searchsorted_left bs x = length bs \<longleftrightarrow> (\<forall>b \<in> set bs. b < x)"
proof (induction bs)
  case Nil
  show ?case by simp
next
  case (Cons b bs)
  show ?case
    using Cons.IH searchsorted_left_le [of bs x] by auto
qed

lemma length_drop_duplicates_le: "length (drop_duplicates xs) \<le> length xs"
  by (simp add: length_drop_duplicates card_length)

lemma length_map_filter_le: "length (List.map_filter f xs) \<le> length xs"
  by (induction xs) (auto split: option.splits)

lemma length_quantile_edges_le: "length (quantile_edges xs q) \<le> Suc q"
  using length_map_filter_le [of "\<lambda>k. quantile xs (of_nat k / of_nat q)" "[0..<Suc q]"]
  by (simp add: quantile_edges_def)

lemma bins_to_cuts_Some:
  assumes "bins_to_cuts bins x = Some b"
  shows "Suc b < length bins"
proof -
  define ids where "ids = (case bins of [] \<Rightarrow> searchsorted_left bins x
                 | b0 # _ \<Rightarrow> if x = b0 then 1 else searchsorted_left bins x)"
  have le: "ids \<le> length bins"
    using searchsorted_left_le [of bins x] by (auto simp: ids_def split: list.splits)
  from assms have "ids \<noteq> length bins" "ids \<noteq> 0" "b = ids - 1"
    by (auto simp: bins_to_cuts_def ids_def [symmetric] Let_def split: if_splits)
  with le show ?thesis by simp
qed

lemma qcut_bucket_less:
  assumes "Some b \<in> set (qcut xs q)"
  shows "b < q"
proof -
  from assms obtain x where "bins_to_cuts (drop_duplicates (quantile_edges xs q)) x = Some b"
    by (auto simp: qcut_def)
  then have "Suc b < length (drop_duplicates (quantile_edges xs q))"
    by (rule bins_to_cuts_Some)
  also have "\<dots> \<le> length (quantile_edges xs q)"
    by (rule length_drop_duplicates_le)
  also have "\<dots> \<le> Suc q"
    by (rule length_quantile_edges_le)
  finally show ?thesis by simp
qed


lemma sorted_constant: "\<forall>x \<in> set xs. x = v \<Longrightarrow> sort xs = xs"
proof -
  assume "\<forall>x \<in> set xs. x = v"
  then have "sorted xs"
    by (induction xs) auto
  then show ?thesis
    by (rule sorted_sort_id)
qed

lemma quantile_constant:
  assumes "xs \<noteq> []" and c: "\<forall>x \<in> set xs. x = v" and p: "0 \<le> p" "p \<le> 1"
  shows "quantile xs p = Some v"
proof -
  let ?n = "length xs"
  let ?h = "rat_of_nat (?n - 1) * p"
  have n: "0 < ?n" using assms(1) by simp
  have "?h \<le> rat_of_nat (?n - 1)"
    using p by (simp add: mult_left_le)
  then have "\<lfloor>?h\<rfloor> \<le> int (?n - 1)"
    by (simp add: floor_le_iff) 
  then have lo: "nat \<lfloor>?h\<rfloor> < ?n"
    using n by linarith
  have nth: "\<And>i. i < ?n \<Longrightarrow> xs ! i = v"
    using c by auto
  have key: "\<And>lo g. lo < ?n \<Longrightarrow>
      (if lo + 1 < ?n then xs ! lo + g * (xs ! (lo + 1) - xs ! lo) else xs ! lo) = v"
    by (simp add: nth)
  show ?thesis
    unfolding quantile_def Let_def sorted_constant [OF c]
    by (simp only: key [OF lo] assms(1) if_False)
qed

lemma quantile_edges_constant:
  assumes "xs \<noteq> []" and c: "\<forall>x \<in> set xs. x = v"
  shows "quantile_edges xs q = replicate (Suc q) v"
proof -
  have "\<And>k. k \<in> set [0..<Suc q] \<Longrightarrow> quantile xs (of_nat k / of_nat q) = Some v"
  proof -
    fix k assume "k \<in> set [0..<Suc q]"
    then have "k \<le> q" by auto
    then have "0 \<le> rat_of_nat k / of_nat q" "rat_of_nat k / of_nat q \<le> 1"
      by (auto simp: divide_le_eq_1)
    then show "quantile xs (of_nat k / of_nat q) = Some v"
      by (rule quantile_constant [OF assms])
  qed
  then have "quantile_edges xs q = map (\<lambda>k. v) [0..<Suc q]"
    unfolding quantile_edges_def by (rule map_filter_all_Some)
  then show ?thesis
    by (simp add: map_replicate_const del: upt_Suc)
qed

lemma drop_duplicates_replicate: "drop_duplicates (replicate (Suc n) v) = [v]"
  by (induction n) simp_all

text \<open>A metric with the same value for every customer: no customer gets a bucket.\<close>

lemma qcut_constant:
  assumes "\<forall>x \<in> set xs. x = v"
  shows "qcut xs q = map (\<lambda>x. None) xs"
proof (cases "xs = []")
  case True
  then show ?thesis by (simp add: qcut_def)
next
  case False
  have "map (bins_to_cuts [v]) xs = map (\<lambda>x. None) xs"
    by (rule map_cong) (use assms in \<open>auto simp: bins_to_cuts_def\<close>)
  then show ?thesis
    unfolding qcut_def quantile_edges_constant [OF False assms] drop_duplicates_replicate .
qed


lemma quantile_0: "xs \<noteq> [] \<Longrightarrow> quantile xs 0 = Some (sort xs ! 0)"
  by (simp add: quantile_def Let_def)

lemma quantile_1: "xs \<noteq> [] \<Longrightarrow> quantile xs 1 = Some (sort xs ! (length xs - 1))"
  by (simp add: quantile_def Let_def)

lemma sort_bounds:
  assumes "x \<in> set xs"
  shows "sort xs ! 0 \<le> x \<and> x \<le> sort xs ! (length xs - 1)"
proof -
  from assms have "x \<in> set (sort xs)" by simp
  then obtain i where i: "i < length (sort xs)" "sort xs ! i = x"
    unfolding in_set_conv_nth by blast
  have "sort xs ! 0 \<le> sort xs ! i"
    using i(1) by (intro sorted_nth_mono) simp_all
  moreover have "sort xs ! i \<le> sort xs ! (length xs - 1)"
    using i(1) by (intro sorted_nth_mono) simp_all
  ultimately show ?thesis
    using i(2) by simp
qed

lemma quantile_edges_ends:
  assumes "xs \<noteq> []" and "0 < q"
  shows "\<exists>es. quantile_edges xs q = sort xs ! 0 # es \<and>
              sort xs ! (length xs - 1) \<in> set (quantile_edges xs q)"
proof -
  have u: "[0..<Suc q] = 0 # [1..<Suc q]"
    by (simp add: upt_conv_Cons del: upt_Suc)
  have "quantile_edges xs q =
          sort xs ! 0 # List.map_filter (\<lambda>k. quantile xs (of_nat k / of_nat q)) [1..<Suc q]"
    unfolding quantile_edges_def u by (simp add: quantile_0 [OF assms(1)])
  moreover have "quantile xs (of_nat q / of_nat q) = Some (sort xs ! (length xs - 1))"
    using assms by (simp add: quantile_1)
  then have "sort xs ! (length xs - 1) \<in> set (quantile_edges xs q)"
    unfolding quantile_edges_def set_map_filter_Some by force
  ultimately show ?thesis by blast
qed

lemma bins_to_cuts_defined:
  assumes hi: "hi \<in> set (lo # bs)" and x: "lo \<le> x" "x \<le> hi" and ne: "lo \<noteq> hi"
  shows "bins_to_cuts (lo # bs) x \<noteq> None"
proof (cases "x = lo")
  case True
  from hi ne have "bs \<noteq> []" by auto
  with True show ?thesis
    by (simp add: bins_to_cuts_def)
next
  case False
  with x have lt: "lo < x" by simp
  from hi x lt have "hi \<in> set bs" by auto
  moreover have "\<not> hi < x" using x(2) by simp
  ultimately have "\<not> (\<forall>b \<in> set bs. b < x)" by blast
  then have "searchsorted_left bs x \<noteq> length bs"
    by (simp add: searchsorted_left_full)
  with False lt show ?thesis
    by (simp add: bins_to_cuts_def)
qed

text \<open>A metric with at least two values among the customers: every customer gets a bucket.\<close>

lemma qcut_defined:
  assumes "0 < q" and "x \<in> set xs" "y \<in> set xs" "x \<noteq> y"
  shows "None \<notin> set (qcut xs q)"
proof
  assume "None \<in> set (qcut xs q)"
  then obtain z where z: "z \<in> set xs"
    and none: "bins_to_cuts (drop_duplicates (quantile_edges xs q)) z = None"
    by (auto simp: qcut_def)
  let ?lo = "sort xs ! 0" and ?hi = "sort xs ! (length xs - 1)"
  have ne: "xs \<noteq> []" using z by auto
  from quantile_edges_ends [OF ne assms(1)] obtain es
    where es: "quantile_edges xs q = ?lo # es" and hi: "?hi \<in> set (quantile_edges xs q)"
    by blast
  have bins: "drop_duplicates (quantile_edges xs q) =
      ?lo # filter (\<lambda>y. y \<noteq> ?lo) (drop_duplicates es)"
    by (simp add: es)
  have hi': "?hi \<in> set (?lo # filter (\<lambda>y. y \<noteq> ?lo) (drop_duplicates es))"
    using hi unfolding bins [symmetric] by (simp add: set_drop_duplicates)
  have "?lo \<noteq> ?hi"
  proof
    assume eq: "?lo = ?hi"
    from sort_bounds [OF assms(2)] sort_bounds [OF assms(3)] eq have "x = y" by simp
    with assms(4) show False by simp
  qed
  with sort_bounds [OF z] hi'
  have "bins_to_cuts (?lo # filter (\<lambda>y. y \<noteq> ?lo) (drop_duplicates es)) z \<noteq> None"
    by (intro bins_to_cuts_defined) simp_all
  with none show False
    by (simp add: bins)
qed


lemma varies_two: "varies xs \<Longrightarrow> \<exists>x \<in> set xs. \<exists>y \<in> set xs. x \<noteq> y"
proof (rule ccontr)
  assume v: "varies xs" and "\<not> (\<exists>x \<in> set xs. \<exists>y \<in> set xs. x \<noteq> y)"
  then have "set xs \<subseteq> {hd xs}"
    by (cases xs) auto
  then have "card (set xs) \<le> card {hd xs}"
    by (intro card_mono) simp_all
  with v show False
    by (simp add: varies_def nunique_card)
qed

lemma varies_map_inj:
  assumes "inj f" and "varies xs"
  shows "varies (map f xs)"
proof -
  have "card (f ` set xs) = card (set xs)"
    by (rule card_image [OF inj_on_subset [OF assms(1) subset_UNIV]])
  with assms(2) show ?thesis
    by (simp add: varies_def nunique_card)
qed

lemma qcut_varies:
  assumes "varies xs" and "i < length xs"
  shows "\<exists>b < 5. qcut xs 5 ! i = Some b"
proof -
  from varies_two [OF assms(1)] obtain x y where "x \<in> set xs" "y \<in> set xs" "x \<noteq> y"
    by blast
  then have "None \<notin> set (qcut xs 5)"
    by (intro qcut_defined) simp_all
  moreover have "qcut xs 5 ! i \<in> set (qcut xs 5)"
    using assms(2) by (simp add: qcut_def)
  ultimately obtain b where b: "qcut xs 5 ! i = Some b"
    by (cases "qcut xs 5 ! i") auto
  with \<open>qcut xs 5 ! i \<in> set (qcut xs 5)\<close> have "b < 5"
    by (intro qcut_bucket_less [of b xs 5]) simp
  with b show ?thesis by blast
qed

lemma str_int_digit: "1 \<le> n \<Longrightarrow> n \<le> 5 \<Longrightarrow> length (str_int n) = 1"
  by (subst str_int_def, subst str_nat.simps) simp

lemma astype_str_defined:
  assumes "None \<notin> set col" and "i < length col"
  shows "astype_str col ! i = str_int (the (col ! i))"
proof -
  from assms have "col ! i \<noteq> None"
    by (metis nth_mem)
  with assms show ?thesis
    by (auto simp: astype_str_def)
qed


lemma R_bucket_varies:
  assumes "varies (map Recency rfm)" and "i < length rfm"
  shows "\<exists>b < 5. R_bucket rfm ! i = Some b"
proof -
  have "varies (map rat_of_int (map Recency rfm))"
    using assms(1) by (intro varies_map_inj [of rat_of_int "map Recency rfm"]) (simp_all add: inj_def)
  then show ?thesis
    unfolding R_bucket_def using assms(2) by (intro qcut_varies) (simp_all add: comp_def)
qed

lemma F_bucket_varies:
  assumes "varies (map Frequency rfm)" and "i < length rfm"
  shows "\<exists>b < 5. F_bucket rfm ! i = Some b"
proof -
  have "varies (map rat_of_nat (map Frequency rfm))"
    using assms(1) by (intro varies_map_inj [of rat_of_nat "map Frequency rfm"]) (simp_all add: inj_def)
  then show ?thesis
    unfolding F_bucket_def using assms(2) by (intro qcut_varies) (simp_all add: comp_def)
qed

lemma M_bucket_varies:
  assumes "varies (map Monetary rfm)" and "i < length rfm"
  shows "\<exists>b < 5. M_bucket rfm ! i = Some b"
  unfolding M_bucket_def using assms by (intro qcut_varies) simp_all

lemma length_buckets:
  "length (R_bucket rfm) = length rfm" "length (F_bucket rfm) = length rfm"
  "length (M_bucket rfm) = length rfm"
  by (simp_all add: R_bucket_def F_bucket_def M_bucket_def qcut_def)

lemma score_rfm_nth:
  assumes "i < length rfm"
  shows "R_Score (score_rfm rfm ! i) = map_option (\<lambda>b. 5 - int b) (R_bucket rfm ! i)"
    and "F_Score (score_rfm rfm ! i) = map_option (\<lambda>b. int b + 1) (F_bucket rfm ! i)"
    and "M_Score (score_rfm rfm ! i) = map_option (\<lambda>b. int b + 1) (M_bucket rfm ! i)"
    and "RFM_Score (score_rfm rfm ! i) =
           astype_str (R_Scores rfm) ! i @ astype_str (F_Scores rfm) ! i @
           astype_str (M_Scores rfm) ! i"
  using assms
  by (simp_all add: score_rfm_def R_Scores_def F_Scores_def M_Scores_def RFM_Scores_def
      length_buckets)

lemma None_notin_map_option: "None \<in> set (map (map_option f) xs) \<longleftrightarrow> None \<in> set xs"
  by (induction xs) auto


lemma None_notin_nth:
  assumes "\<And>i. i < length xs \<Longrightarrow> \<exists>b. xs ! i = Some b"
  shows "None \<notin> set xs"
proof
  assume "None \<in> set xs"
  then obtain i where "i < length xs" "xs ! i = None"
    unfolding in_set_conv_nth by blast
  with assms [of i] show False by auto
qed

lemma Scores_defined:
  "varies (map Recency rfm) \<Longrightarrow> None \<notin> set (R_Scores rfm)"
  "varies (map Frequency rfm) \<Longrightarrow> None \<notin> set (F_Scores rfm)"
  "varies (map Monetary rfm) \<Longrightarrow> None \<notin> set (M_Scores rfm)"
proof -
  assume v: "varies (map Recency rfm)"
  have "None \<notin> set (R_bucket rfm)"
    using R_bucket_varies [OF v] by (intro None_notin_nth) (auto simp: length_buckets)
  then show "None \<notin> set (R_Scores rfm)"
    by (simp add: R_Scores_def None_notin_map_option del: set_map)
next
  assume v: "varies (map Frequency rfm)"
  have "None \<notin> set (F_bucket rfm)"
    using F_bucket_varies [OF v] by (intro None_notin_nth) (auto simp: length_buckets)
  then show "None \<notin> set (F_Scores rfm)"
    by (simp add: F_Scores_def None_notin_map_option del: set_map)
next
  assume v: "varies (map Monetary rfm)"
  have "None \<notin> set (M_bucket rfm)"
    using M_bucket_varies [OF v] by (intro None_notin_nth) (auto simp: length_buckets)
  then show "None \<notin> set (M_Scores rfm)"
    by (simp add: M_Scores_def None_notin_map_option del: set_map)
qed

text \<open>
  Where each of the three metrics takes at least two values among the customers, every
  customer has three buckets in 0..4, the scores are \<open>5 - bucket\<close>, \<open>bucket + 1\<close> and
  \<open>bucket + 1\<close>, hence in 1..5, and the composite string is made of their three digits.
\<close>

lemma scores_when_metrics_vary:
  assumes i: "i < length rfm"
    and vr: "varies (map Recency rfm)"
    and vf: "varies (map Frequency rfm)"
    and vm: "varies (map Monetary rfm)"
  shows "\<exists>rb fb mb. rb < 5 \<and> fb < 5 \<and> mb < 5 \<and>
     R_bucket rfm ! i = Some rb \<and> F_bucket rfm ! i = Some fb \<and> M_bucket rfm ! i = Some mb \<and>
     R_Score (score_rfm rfm ! i) = Some (5 - int rb) \<and>
     F_Score (score_rfm rfm ! i) = Some (int fb + 1) \<and>
     M_Score (score_rfm rfm ! i) = Some (int mb + 1) \<and>
     RFM_Score (score_rfm rfm ! i) =
       str_int (5 - int rb) @ str_int (int fb + 1) @ str_int (int mb + 1) \<and>
     length (RFM_Score (score_rfm rfm ! i)) = 3"
proof -
  from R_bucket_varies [OF vr i] obtain rb where rb: "rb < 5" "R_bucket rfm ! i = Some rb"
    by blast
  from F_bucket_varies [OF vf i] obtain fb where fb: "fb < 5" "F_bucket rfm ! i = Some fb"
    by blast
  from M_bucket_varies [OF vm i] obtain mb where mb: "mb < 5" "M_bucket rfm ! i = Some mb"
    by blast
  have R: "astype_str (R_Scores rfm) ! i = str_int (5 - int rb)"
    using i rb(2)
    by (subst astype_str_defined [OF Scores_defined(1) [OF vr]])
      (simp_all add: R_Scores_def length_buckets)
  have F: "astype_str (F_Scores rfm) ! i = str_int (int fb + 1)"
    using i fb(2)
    by (subst astype_str_defined [OF Scores_defined(2) [OF vf]])
      (simp_all add: F_Scores_def length_buckets)
  have M: "astype_str (M_Scores rfm) ! i = str_int (int mb + 1)"
    using i mb(2)
    by (subst astype_str_defined [OF Scores_defined(3) [OF vm]])
      (simp_all add: M_Scores_def length_buckets)
  have len: "length (str_int (5 - int rb)) = 1" "length (str_int (int fb + 1)) = 1"
    "length (str_int (int mb + 1)) = 1"
    using rb(1) fb(1) mb(1) by (simp_all add: str_int_digit)
  show ?thesis
    using rb fb mb len
    by (simp add: score_rfm_nth [OF i] R F M)
qed

text \<open>
  Where a metric has the same value for every customer, the score of that metric is NaN
  for every customer.
\<close>

lemma F_Score_constant:
  assumes "\<forall>a \<in> set rfm. Frequency a = v" and "a \<in> set (score_rfm rfm)"
  shows "F_Score a = None"
proof -
  have "F_bucket rfm = map (\<lambda>x. None) (map (\<lambda>a. rat_of_nat (Frequency a)) rfm)"
    unfolding F_bucket_def using assms(1) by (intro qcut_constant [where v = "of_nat v"]) auto
  then have "F_Scores rfm = map (\<lambda>a. None) rfm"
    by (simp add: F_Scores_def comp_def)
  with assms(2) show ?thesis
    by (auto simp: score_rfm_def)
qed

lemma of_char_digit: "n < 10 \<Longrightarrow> of_char (''0123456789'' ! n) = 48 + n"
proof -
  assume "n < 10"
  then have "n \<in> {0, 1, 2, 3, 4, 5, 6, 7, 8, 9}" by auto
  then show ?thesis
    by (elim insertE emptyE) simp_all
qed

lemma digit_less: "a < 10 \<Longrightarrow> b < 10 \<Longrightarrow> ''0123456789'' ! a < ''0123456789'' ! b \<longleftrightarrow> a < b"
  by (simp only: less_char_def of_char_digit) simp

lemma digit_eq: "a < 10 \<Longrightarrow> b < 10 \<Longrightarrow> ''0123456789'' ! a = ''0123456789'' ! b \<longleftrightarrow> a = b"
proof -
  assume a: "a < 10" and b: "b < 10"
  have "''0123456789'' ! a = ''0123456789'' ! b \<longleftrightarrow>
        (of_char (''0123456789'' ! a) :: nat) = of_char (''0123456789'' ! b)"
    by (simp only: of_char_eq_iff)
  also have "\<dots> \<longleftrightarrow> a = b"
    by (simp only: of_char_digit [OF a] of_char_digit [OF b]) simp
  finally show ?thesis .
qed

lemma str_int_one_digit: "0 \<le> n \<Longrightarrow> n < 10 \<Longrightarrow> str_int n = [''0123456789'' ! nat n]"
  by (subst str_int_def, subst str_nat.simps) simp

text \<open>
  On composites of three single digits the lexicographic comparison with a threshold of
  three equal digits is the comparison of the three-digit numbers.
\<close>

lemma composite_numeric:
  assumes "0 \<le> r" "r < 10" "0 \<le> f" "f < 10" "0 \<le> m" "m < 10" "0 \<le> t" "t < 10"
  shows "str_int t @ str_int t @ str_int t \<le> str_int r @ str_int f @ str_int m \<longleftrightarrow>
         111 * t \<le> 100 * r + 10 * f + m"
proof -
  have lt: "\<And>a b. 0 \<le> a \<Longrightarrow> a < 10 \<Longrightarrow> 0 \<le> b \<Longrightarrow> b < 10 \<Longrightarrow>
      ''0123456789'' ! nat a < ''0123456789'' ! nat b \<longleftrightarrow> a < b"
    by (subst digit_less) auto
  have eq: "\<And>a b. 0 \<le> a \<Longrightarrow> a < 10 \<Longrightarrow> 0 \<le> b \<Longrightarrow> b < 10 \<Longrightarrow>
      ''0123456789'' ! nat a = ''0123456789'' ! nat b \<longleftrightarrow> a = b"
    by (subst digit_eq) auto
  have "str_int t @ str_int t @ str_int t \<le> str_int r @ str_int f @ str_int m \<longleftrightarrow>
        t < r \<or> t = r \<and> (t < f \<or> t = f \<and> t \<le> m)"
    using assms by (simp add: str_int_one_digit del: nth_Cons_numeral)
      (auto simp: lt eq simp del: nth_Cons_numeral)
  also have "\<dots> \<longleftrightarrow> 111 * t \<le> 100 * r + 10 * f + m"
    using assms by arith
  finally show ?thesis .
qed

lemma thresholds:
  "''444'' = str_int 4 @ str_int 4 @ str_int 4"
  "''333'' = str_int 3 @ str_int 3 @ str_int 3"
  "''222'' = str_int 2 @ str_int 2 @ str_int 2"
  by (simp_all add: str_int_one_digit)

section \<open>Constant metrics\<close>

text \<open>
  C2, at a cleaned table with a single customer. Each of the three metrics has one value, so
  the six quantile edges of each metric are equal and \<^verbatim>\<open>duplicates='drop'\<close> leaves one edge
  and no bin (lemma \<open>qcut_constant\<close>): the three bucket indices are NaN, and so are the three
  scores. No score lies in 1..5, against the comment of line 24 ("normalize all to 1-5
  scale"). The formulas and the range of the claim hold where the metrics vary (lemma
  \<open>scores_when_metrics_vary\<close>).
\<close>

theorem scores_one_customer:
  "compute_segments one_customer =
     Inr [\<lparr>customer = 17850, Recency = 1, Frequency = 1, Monetary = 15,
           R_Score = None, F_Score = None, M_Score = None,
           RFM_Score = ''nannannan'', Segment = ''Champions''\<rparr>]"
  by code_simp

text \<open>
  C10, at a cleaned table with two customers who have one invoice each. Recency and
  monetary value differ and get the scores 5 and 1; the frequency is 1 for both, its score
  is NaN (lemma \<open>F_Score_constant\<close>) and prints as "nan". The composite strings have five
  characters, not three, and are compared with "444", "333" and "222" all the same. Where
  the three metrics vary the composite has three digits (lemma \<open>scores_when_metrics_vary\<close>)
  and its comparison with a threshold is the comparison of the numbers (lemma
  \<open>composite_numeric\<close>).
\<close>

theorem composite_two_customers:
  "compute_segments two_customers =
     Inr [\<lparr>customer = 12583, Recency = 1, Frequency = 1, Monetary = 2,
           R_Score = Some 5, F_Score = None, M_Score = Some 1,
           RFM_Score = ''5nan1'', Segment = ''Champions''\<rparr>,
          \<lparr>customer = 17850, Recency = 9, Frequency = 1, Monetary = 19,
           R_Score = Some 1, F_Score = None, M_Score = Some 5,
           RFM_Score = ''1nan5'', Segment = ''Churn Risk''\<rparr>]"
  by code_simp

end
